theory Spec2Isabelle
  imports Main
begin

section \<open>Data model of the chained hash table (htable.h)\<close>

text \<open>
  Nodes live in a heap of their own: an address is a natural number, a pointer to a node is
  an \<open>addr option\<close> with \<open>None\<close> for \<open>NULL\<close>. Keys are the opaque \<open>void *\<close> handles the
  hash and comparison callbacks read (the code never tests a key for \<open>NULL\<close>); a value
  handle is a \<open>'v option\<close>, \<open>None\<close> being the \<open>NULL\<close> that \<open>htable_insert\<close> rejects and
  that \<open>htable_get\<close> returns for an absent key.
\<close>

type_synonym addr = nat

record ('k, 'v) htable_node =
  node_key :: 'k
  node_value :: "'v option"
  node_next :: "addr option"

text \<open>
  The four hooks installed in a table. The free hooks act on the caller's own memory,
  the type \<open>'w\<close>; the copy hooks are taken as functions of their argument.
\<close>

record ('k, 'v, 'w) callbacks =
  kcpy :: "'k \<Rightarrow> 'k"
  vcpy :: "'v option \<Rightarrow> 'v option"
  kfree :: "'k \<Rightarrow> 'w \<Rightarrow> 'w"
  vfree :: "'v option \<Rightarrow> 'w \<Rightarrow> 'w"

text \<open>The \<open>const struct callbacks *cbs\<close> argument of \<open>htable_create\<close>: each hook may be \<open>NULL\<close>.\<close>

record ('k, 'v, 'w) callbacks_arg =
  arg_kcpy :: "('k \<Rightarrow> 'k) option"
  arg_vcpy :: "('v option \<Rightarrow> 'v option) option"
  arg_kfree :: "('k \<Rightarrow> 'w \<Rightarrow> 'w) option"
  arg_vfree :: "('v option \<Rightarrow> 'w \<Rightarrow> 'w) option"

text \<open>
  \<open>htable_t\<close>. The bucket array \<open>table\<close> is a nullable pointer to an array of node
  pointers; \<open>size\<close> and \<open>count\<close> are \<open>size_t\<close>, the hash is an \<open>unsigned long\<close>: only
  \<open>hash(key) % size\<close> is ever computed from them, which does not overflow, so they are
  naturals. The comparison callback returns a C \<open>int\<close>, only ever tested against zero.
\<close>

record ('k, 'v, 'w) htable =
  ht_table :: "addr option list option"
  ht_size :: nat
  ht_count :: nat
  ht_hash :: "'k \<Rightarrow> nat"
  ht_keq :: "'k \<Rightarrow> 'k \<Rightarrow> int"
  ht_cbs :: "('k, 'v, 'w) callbacks"

text \<open>
  The memory an operation works on: the struct behind its \<open>htable_t *\<close> argument
  (\<open>None\<close> when that pointer is \<open>NULL\<close>, or once the struct has been released), the
  node heap, and the caller's memory the free hooks act on.
\<close>

record ('k, 'v, 'w) state =
  tbl :: "('k, 'v, 'w) htable option"
  heap :: "addr \<Rightarrow> ('k, 'v) htable_node option"
  world :: 'w

text \<open>What C leaves undefined and the model makes a result.\<close>

datatype fault = NullDeref | DanglingDeref | DivByZero | OutOfBounds | NullCall | AssertFailed

text \<open>
  What one call of \<open>malloc(sizeof(struct htable_node))\<close> gives: \<open>None\<close> when it fails,
  else the address of the block and what its \<open>next\<close> field happens to hold (\<open>malloc\<close>
  does not clear the block; the other two fields are overwritten at once).
\<close>

type_synonym malloc_result = "(addr \<times> addr option) option"

section \<open>Static functions\<close>

definition get_hash :: "('k, 'v, 'w) htable \<Rightarrow> 'k \<Rightarrow> nat" where
  "get_hash t key = ht_hash t key mod ht_size t"

definition htable_default_copy :: "'a \<Rightarrow> 'a" where
  "htable_default_copy src = src"

definition htable_default_free :: "'a \<Rightarrow> 'w \<Rightarrow> 'w" where
  "htable_default_free src w = w"

text \<open>
  Reading \<open>table->table[get_hash(table, key)]\<close>: the modulus is undefined for a zero
  size and the read is out of bounds when the array is shorter than \<open>size\<close> says.
\<close>

definition bucket_index :: "('k, 'v, 'w) htable \<Rightarrow> addr option list \<Rightarrow> 'k \<Rightarrow> fault + nat" where
  "bucket_index t bs key =
     (if ht_size t = 0 then Inl DivByZero
      else if length bs \<le> get_hash t key then Inl OutOfBounds
      else Inr (get_hash t key))"

section \<open>htable_create\<close>

datatype alloc_event = Alloc_table | Alloc_buckets nat | Alloc_bytes nat | Free_table

text \<open>The hooks \<open>htable_create\<close> installs before it looks at its \<open>cbs\<close> argument.\<close>

definition default_callbacks :: "('k, 'v, 'w) callbacks" where
  "default_callbacks =
     \<lparr>kcpy = htable_default_copy, vcpy = htable_default_copy,
      kfree = htable_default_free, vfree = htable_default_free\<rparr>"

text \<open>
  \<open>ok1\<close> and \<open>ok2\<close> say whether the first and the second \<open>calloc\<close> succeed. The result
  is the returned pointer together with the allocations and releases made, in order. \<open>calloc\<close>
  zeroes the struct, so \<open>count\<close>, which is never assigned, starts at zero, and every
  bucket starts as \<open>NULL\<close>.
\<close>

definition htable_create ::
  "bool \<Rightarrow> bool \<Rightarrow> nat \<Rightarrow> ('k \<Rightarrow> nat) option \<Rightarrow> ('k \<Rightarrow> 'k \<Rightarrow> int) option \<Rightarrow>
   ('k, 'v, 'w) callbacks_arg option \<Rightarrow> ('k, 'v, 'w) htable option \<times> alloc_event list" where
  "htable_create ok1 ok2 sz hash keq cbs =
     (if sz = 0 then (None, [])
      else case hash of
        None \<Rightarrow> (None, [])
      | Some hash_fn \<Rightarrow>
     (case keq of
        None \<Rightarrow> (None, [])
      | Some keq_fn \<Rightarrow>
          if \<not> ok1 then (None, [Alloc_table])
          else if \<not> ok2 then (None, [Alloc_table, Alloc_buckets sz, Free_table])
          else
            (Some \<lparr>ht_table = Some (replicate sz None), ht_size = sz, ht_count = 0,
                   ht_hash = hash_fn, ht_keq = keq_fn,
                   ht_cbs = (case cbs of
                       None \<Rightarrow> default_callbacks
                     | Some c \<Rightarrow>
                         \<lparr>kcpy = (case arg_kcpy c of Some f \<Rightarrow> f | None \<Rightarrow> htable_default_copy),
                          vcpy = (case arg_vcpy c of Some f \<Rightarrow> f | None \<Rightarrow> htable_default_copy),
                          kfree = (case arg_kfree c of Some f \<Rightarrow> f | None \<Rightarrow> htable_default_free),
                          vfree = (case arg_vfree c of Some f \<Rightarrow> f | None \<Rightarrow> htable_default_free)\<rparr>)\<rparr>,
             [Alloc_table, Alloc_buckets sz])))"

section \<open>htable_insert\<close>

datatype 's scan_result = Updated 's | Exhausted addr

text \<open>
  The \<open>do ... while (current != NULL)\<close> loop of \<open>htable_insert\<close>, entered with a non-null
  \<open>current\<close>. \<open>Updated\<close> is the \<open>return 0\<close> inside the loop, \<open>Exhausted prev\<close> is leaving
  the loop with \<open>prev\<close> the last node visited.
\<close>

partial_function (option) insert_scan ::
  "('k, 'v, 'w) htable \<Rightarrow> 'k \<Rightarrow> 'v option \<Rightarrow> addr \<Rightarrow> ('k, 'v, 'w) state \<Rightarrow>
   (fault + ('k, 'v, 'w) state scan_result) option" where
  "insert_scan t key val current s =
     (case heap s current of
        None \<Rightarrow> Some (Inl DanglingDeref)
      | Some n \<Rightarrow>
          if ht_keq t (node_key n) key \<noteq> 0 then
            Some (Inr (Updated (s\<lparr>heap := (heap s)(current \<mapsto> n\<lparr>node_value := vcpy (ht_cbs t) val\<rparr>),
                                   world := vfree (ht_cbs t) (node_value n) (world s)\<rparr>)))
          else (case node_next n of
                  None \<Rightarrow> Some (Inr (Exhausted current))
                | Some nx \<Rightarrow> insert_scan t key val nx s))"

definition htable_insert ::
  "malloc_result \<Rightarrow> ('k, 'v, 'w) state \<Rightarrow> 'k \<Rightarrow> 'v option \<Rightarrow>
   (fault + int \<times> ('k, 'v, 'w) state) option" where
  "htable_insert m s key val =
     (case tbl s of
        None \<Rightarrow> Some (Inr (- 1, s))
      | Some t \<Rightarrow>
     (case ht_table t of
        None \<Rightarrow> Some (Inr (- 1, s))
      | Some bs \<Rightarrow>
     (case val of
        None \<Rightarrow> Some (Inr (- 1, s))
      | Some _ \<Rightarrow>
     (case bucket_index t bs key of
        Inl f \<Rightarrow> Some (Inl f)
      | Inr hashed_key \<Rightarrow>
     (case bs ! hashed_key of
        None \<Rightarrow>
          (case m of
             None \<Rightarrow> Some (Inr (- 2, s))
           | Some (new_node, junk) \<Rightarrow>
               Some (Inr (0, s\<lparr>tbl := Some (t\<lparr>ht_table := Some (bs[hashed_key := Some new_node])\<rparr>),
                               heap := (heap s)(new_node \<mapsto>
                                 \<lparr>node_key = kcpy (ht_cbs t) key,
                                  node_value = vcpy (ht_cbs t) val,
                                  node_next = None\<rparr>)\<rparr>)))
      | Some current \<Rightarrow>
          (case insert_scan t key val current s of
             None \<Rightarrow> None
           | Some (Inl f) \<Rightarrow> Some (Inl f)
           | Some (Inr (Updated s')) \<Rightarrow> Some (Inr (0, s'))
           | Some (Inr (Exhausted prev)) \<Rightarrow>
               (case m of
                  None \<Rightarrow> Some (Inr (- 2, s))
                | Some (new_node, junk) \<Rightarrow>
                    let h1 = (heap s)(new_node \<mapsto>
                                 \<lparr>node_key = kcpy (ht_cbs t) key,
                                  node_value = vcpy (ht_cbs t) val,
                                  node_next = junk\<rparr>)
                    in (case h1 prev of
                          None \<Rightarrow> Some (Inl DanglingDeref)
                        | Some p \<Rightarrow>
                            Some (Inr (0, s\<lparr>heap := h1(prev \<mapsto> p\<lparr>node_next := Some new_node\<rparr>)\<rparr>))))))))))"

section \<open>htable_remove\<close>

text \<open>Calling the two free hooks on a node's key and value, then \<open>free\<close> on the node.\<close>

definition release_node ::
  "('k, 'v, 'w) htable \<Rightarrow> addr \<Rightarrow> ('k, 'v) htable_node \<Rightarrow> ('k, 'v, 'w) state \<Rightarrow> ('k, 'v, 'w) state" where
  "release_node t current n s =
     s\<lparr>heap := (heap s)(current := None),
       world := vfree (ht_cbs t) (node_value n) (kfree (ht_cbs t) (node_key n) (world s))\<rparr>"

definition unlink_node ::
  "('k, 'v, 'w) htable \<Rightarrow> nat \<Rightarrow> addr option \<Rightarrow> ('k, 'v) htable_node \<Rightarrow> ('k, 'v, 'w) state \<Rightarrow>
   fault + ('k, 'v, 'w) state" where
  "unlink_node t hashed_key prev n s =
     (case prev of
        None \<Rightarrow>
          (case ht_table t of
             None \<Rightarrow> Inl NullDeref
           | Some bs \<Rightarrow> Inr (s\<lparr>tbl := Some (t\<lparr>ht_table := Some (bs[hashed_key := node_next n])\<rparr>)\<rparr>))
      | Some p \<Rightarrow>
          (case heap s p of
             None \<Rightarrow> Inl DanglingDeref
           | Some pn \<Rightarrow> Inr (s\<lparr>heap := (heap s)(p \<mapsto> pn\<lparr>node_next := node_next n\<rparr>)\<rparr>)))"

partial_function (option) remove_scan ::
  "('k, 'v, 'w) htable \<Rightarrow> nat \<Rightarrow> 'k \<Rightarrow> addr option \<Rightarrow> addr option \<Rightarrow> ('k, 'v, 'w) state \<Rightarrow>
   (fault + int \<times> ('k, 'v, 'w) state) option" where
  "remove_scan t hashed_key key prev current s =
     (case current of
        None \<Rightarrow> Some (Inr (- 1, s))
      | Some c \<Rightarrow>
          (case heap s c of
             None \<Rightarrow> Some (Inl DanglingDeref)
           | Some n \<Rightarrow>
               if ht_keq t (node_key n) key \<noteq> 0 then
                 (case unlink_node t hashed_key prev n s of
                    Inl f \<Rightarrow> Some (Inl f)
                  | Inr s' \<Rightarrow> Some (Inr (0, release_node t c n s')))
               else remove_scan t hashed_key key (Some c) (node_next n) s))"

definition htable_remove ::
  "('k, 'v, 'w) state \<Rightarrow> 'k \<Rightarrow> (fault + int \<times> ('k, 'v, 'w) state) option" where
  "htable_remove s key =
     (case tbl s of
        None \<Rightarrow> Some (Inr (- 1, s))
      | Some t \<Rightarrow>
     (case ht_table t of
        None \<Rightarrow> Some (Inr (- 1, s))
      | Some bs \<Rightarrow>
     (case bucket_index t bs key of
        Inl f \<Rightarrow> Some (Inl f)
      | Inr hashed_key \<Rightarrow> remove_scan t hashed_key key None (bs ! hashed_key) s)))"

section \<open>htable_get\<close>

partial_function (option) get_scan ::
  "('k, 'v, 'w) htable \<Rightarrow> 'k \<Rightarrow> addr option \<Rightarrow> ('k, 'v, 'w) state \<Rightarrow>
   (fault + 'v option \<times> ('k, 'v, 'w) state) option" where
  "get_scan t key current s =
     (case current of
        None \<Rightarrow> Some (Inr (None, s))
      | Some c \<Rightarrow>
          (case heap s c of
             None \<Rightarrow> Some (Inl DanglingDeref)
           | Some n \<Rightarrow>
               if ht_keq t (node_key n) key \<noteq> 0 then Some (Inr (node_value n, s))
               else get_scan t key (node_next n) s))"

definition htable_get ::
  "('k, 'v, 'w) state \<Rightarrow> 'k \<Rightarrow> (fault + 'v option \<times> ('k, 'v, 'w) state) option" where
  "htable_get s key =
     (case tbl s of
        None \<Rightarrow> Some (Inr (None, s))
      | Some t \<Rightarrow>
     (case ht_table t of
        None \<Rightarrow> Some (Inr (None, s))
      | Some bs \<Rightarrow>
     (case bucket_index t bs key of
        Inl f \<Rightarrow> Some (Inl f)
      | Inr hashed_key \<Rightarrow> get_scan t key (bs ! hashed_key) s)))"

section \<open>htable_destroy\<close>

text \<open>
  The inner \<open>do ... while (current != NULL)\<close> loop: its body reads \<open>current->next\<close>
  before any test of \<open>current\<close>.
\<close>

partial_function (option) destroy_chain ::
  "('k, 'v, 'w) htable \<Rightarrow> addr option \<Rightarrow> ('k, 'v, 'w) state \<Rightarrow> (fault + ('k, 'v, 'w) state) option" where
  "destroy_chain t current s =
     (case current of
        None \<Rightarrow> Some (Inl NullDeref)
      | Some c \<Rightarrow>
          (case heap s c of
             None \<Rightarrow> Some (Inl DanglingDeref)
           | Some n \<Rightarrow>
               (case node_next n of
                  None \<Rightarrow> Some (Inr (release_node t c n s))
                | Some nx \<Rightarrow> destroy_chain t (Some nx) (release_node t c n s))))"

function destroy_buckets ::
  "('k, 'v, 'w) htable \<Rightarrow> addr option list \<Rightarrow> nat \<Rightarrow> ('k, 'v, 'w) state \<Rightarrow>
   (fault + ('k, 'v, 'w) state) option" where
  "destroy_buckets t bs idx s =
     (if idx < ht_size t then
        (if length bs \<le> idx then Some (Inl OutOfBounds)
         else (case destroy_chain t (bs ! idx) s of
                 None \<Rightarrow> None
               | Some (Inl f) \<Rightarrow> Some (Inl f)
               | Some (Inr s') \<Rightarrow> destroy_buckets t bs (Suc idx) s'))
      else Some (Inr s))"
  by pat_completeness auto
termination
  by (relation "measure (\<lambda>(t, bs, idx, s). ht_size t - idx)") auto

definition htable_destroy ::
  "('k, 'v, 'w) state \<Rightarrow> (fault + ('k, 'v, 'w) state) option" where
  "htable_destroy s =
     (case tbl s of
        None \<Rightarrow> Some (Inr s)
      | Some t \<Rightarrow>
     (case ht_table t of
        None \<Rightarrow> Some (Inr s)
      | Some bs \<Rightarrow>
     (case destroy_buckets t bs 0 s of
        None \<Rightarrow> None
      | Some (Inl f) \<Rightarrow> Some (Inl f)
      | Some (Inr s') \<Rightarrow> Some (Inr (s'\<lparr>tbl := None\<rparr>)))))"


section \<open>The older variant: the hash map of the second htable.c\<close>

text \<open>
  The second implementation in \<open>htable.c\<close> (``Generic Hash map'') and its header. Its
  \<open>hnode_t\<close> has the three fields of \<open>struct htable_node\<close>, so nodes and node heaps are
  those of the model above. Its \<open>htable_t\<close> has no \<open>count\<close> and no callbacks; \<open>hash\<close> and
  \<open>comp\<close> are stored as they are passed, \<open>NULL\<close> included. Its preconditions are
  \<open>assert\<close> calls, which abort the program (the Makefile does not define \<open>NDEBUG\<close>);
  \<open>LOG_ERROR\<close> prints at most and is left out.
\<close>

record 'k hash_map =
  map_table :: "addr option list option"
  map_size :: nat
  map_hash :: "('k \<Rightarrow> nat) option"
  map_comp :: "('k \<Rightarrow> 'k \<Rightarrow> int) option"

record ('k, 'v) map_state =
  map_ptr :: "'k hash_map option"
  map_heap :: "addr \<Rightarrow> ('k, 'v) htable_node option"

text \<open>
  \<open>size_t\<close> arithmetic: 64 bits wide, and a node pointer takes 8 bytes (the LP64 targets
  of the Makefile's \<open>gcc\<close>). A \<open>size_t\<close> argument is below \<open>2^64\<close>.
\<close>

definition size_t_wrap :: "nat \<Rightarrow> nat" where
  "size_t_wrap n = n mod 2 ^ 64"

definition sizeof_ptr :: nat where
  "sizeof_ptr = 8"

text \<open>
  \<open>malloc(size * sizeof(*map->table))\<close> then \<open>memset\<close> over the same number of bytes:
  the product is computed in \<open>size_t\<close> and wraps, so the array has room for
  \<open>size_t_wrap (size * 8) div 8\<close> bucket heads, which is \<open>size\<close> below \<open>2^61\<close> only,
  while \<open>map->size\<close> is set to \<open>size\<close> in every case. \<open>Alloc_bytes\<close> records the byte
  count passed to \<open>malloc\<close>.
\<close>

definition htable_create_map ::
  "bool \<Rightarrow> bool \<Rightarrow> nat \<Rightarrow> ('k \<Rightarrow> nat) option \<Rightarrow> ('k \<Rightarrow> 'k \<Rightarrow> int) option \<Rightarrow>
   fault + 'k hash_map option \<times> alloc_event list" where
  "htable_create_map ok1 ok2 sz hash comp_fn =
     (if \<not> 0 < sz then Inl AssertFailed
      else if \<not> ok1 then Inr (None, [Alloc_table])
      else if \<not> ok2 then
        Inr (None, [Alloc_table, Alloc_bytes (size_t_wrap (sz * sizeof_ptr)), Free_table])
      else Inr (Some \<lparr>map_table = Some (replicate (size_t_wrap (sz * sizeof_ptr) div sizeof_ptr) None),
                       map_size = sz, map_hash = hash, map_comp = comp_fn\<rparr>,
                [Alloc_table, Alloc_bytes (size_t_wrap (sz * sizeof_ptr))]))"

text \<open>\<open>map->table[get_hash(map, key)]\<close>, with \<open>get_hash\<close> calling \<open>map->hash\<close>.\<close>

definition bucket_index_map :: "'k hash_map \<Rightarrow> addr option list \<Rightarrow> 'k \<Rightarrow> fault + nat" where
  "bucket_index_map mp bs key =
     (case map_hash mp of
        None \<Rightarrow> Inl NullCall
      | Some hash_fn \<Rightarrow>
          if map_size mp = 0 then Inl DivByZero
          else if length bs \<le> hash_fn key mod map_size mp then Inl OutOfBounds
          else Inr (hash_fn key mod map_size mp))"

partial_function (option) insert_scan_map ::
  "'k hash_map \<Rightarrow> 'k \<Rightarrow> 'v option \<Rightarrow> addr \<Rightarrow> ('k, 'v) map_state \<Rightarrow>
   (fault + ('k, 'v) map_state scan_result) option" where
  "insert_scan_map mp key val current s =
     (case map_heap s current of
        None \<Rightarrow> Some (Inl DanglingDeref)
      | Some n \<Rightarrow>
          (case map_comp mp of
             None \<Rightarrow> Some (Inl NullCall)
           | Some comp_fn \<Rightarrow>
               if comp_fn (node_key n) key = 0 then
                 Some (Inr (Updated (s\<lparr>map_heap := (map_heap s)(current \<mapsto> n\<lparr>node_value := val\<rparr>)\<rparr>)))
               else (case node_next n of
                       None \<Rightarrow> Some (Inr (Exhausted current))
                     | Some nx \<Rightarrow> insert_scan_map mp key val nx s)))"

definition htable_insert_map ::
  "malloc_result \<Rightarrow> ('k, 'v) map_state \<Rightarrow> 'k \<Rightarrow> 'v option \<Rightarrow>
   (fault + int \<times> ('k, 'v) map_state) option" where
  "htable_insert_map m s key val =
     (case map_ptr s of
        None \<Rightarrow> Some (Inl AssertFailed)
      | Some mp \<Rightarrow>
     (case map_table mp of
        None \<Rightarrow> Some (Inl AssertFailed)
      | Some bs \<Rightarrow>
     (case val of
        None \<Rightarrow> Some (Inl AssertFailed)
      | Some _ \<Rightarrow>
     (case bucket_index_map mp bs key of
        Inl f \<Rightarrow> Some (Inl f)
      | Inr hashed_key \<Rightarrow>
     (case bs ! hashed_key of
        None \<Rightarrow>
          (case m of
             None \<Rightarrow> Some (Inr (- 1, s))
           | Some (new_node, junk) \<Rightarrow>
               Some (Inr (0, s\<lparr>map_ptr := Some (mp\<lparr>map_table := Some (bs[hashed_key := Some new_node])\<rparr>),
                               map_heap := (map_heap s)(new_node \<mapsto>
                                 \<lparr>node_key = key, node_value = val, node_next = None\<rparr>)\<rparr>)))
      | Some current \<Rightarrow>
          (case insert_scan_map mp key val current s of
             None \<Rightarrow> None
           | Some (Inl f) \<Rightarrow> Some (Inl f)
           | Some (Inr (Updated s')) \<Rightarrow> Some (Inr (0, s'))
           | Some (Inr (Exhausted prev)) \<Rightarrow>
               (case m of
                  None \<Rightarrow> Some (Inr (- 1, s))
                | Some (new_node, junk) \<Rightarrow>
                    let h1 = (map_heap s)(new_node \<mapsto>
                                 \<lparr>node_key = key, node_value = val, node_next = junk\<rparr>)
                    in (case h1 prev of
                          None \<Rightarrow> Some (Inl DanglingDeref)
                        | Some p \<Rightarrow>
                            Some (Inr (0, s\<lparr>map_heap := h1(prev \<mapsto> p\<lparr>node_next := Some new_node\<rparr>)\<rparr>))))))))))"

definition unlink_node_map ::
  "'k hash_map \<Rightarrow> nat \<Rightarrow> addr option \<Rightarrow> ('k, 'v) htable_node \<Rightarrow> ('k, 'v) map_state \<Rightarrow>
   fault + ('k, 'v) map_state" where
  "unlink_node_map mp hashed_key prev n s =
     (case prev of
        None \<Rightarrow>
          (case map_table mp of
             None \<Rightarrow> Inl NullDeref
           | Some bs \<Rightarrow> Inr (s\<lparr>map_ptr := Some (mp\<lparr>map_table := Some (bs[hashed_key := node_next n])\<rparr>)\<rparr>))
      | Some p \<Rightarrow>
          (case map_heap s p of
             None \<Rightarrow> Inl DanglingDeref
           | Some pn \<Rightarrow> Inr (s\<lparr>map_heap := (map_heap s)(p \<mapsto> pn\<lparr>node_next := node_next n\<rparr>)\<rparr>)))"

partial_function (option) remove_scan_map ::
  "'k hash_map \<Rightarrow> nat \<Rightarrow> 'k \<Rightarrow> addr option \<Rightarrow> addr option \<Rightarrow> ('k, 'v) map_state \<Rightarrow>
   (fault + int \<times> ('k, 'v) map_state) option" where
  "remove_scan_map mp hashed_key key prev current s =
     (case current of
        None \<Rightarrow> Some (Inr (- 1, s))
      | Some c \<Rightarrow>
          (case map_heap s c of
             None \<Rightarrow> Some (Inl DanglingDeref)
           | Some n \<Rightarrow>
               (case map_comp mp of
                  None \<Rightarrow> Some (Inl NullCall)
                | Some comp_fn \<Rightarrow>
                    if comp_fn (node_key n) key = 0 then
                      (case unlink_node_map mp hashed_key prev n s of
                         Inl f \<Rightarrow> Some (Inl f)
                       | Inr s' \<Rightarrow> Some (Inr (0, s'\<lparr>map_heap := (map_heap s')(c := None)\<rparr>)))
                    else remove_scan_map mp hashed_key key (Some c) (node_next n) s)))"

definition htable_remove_map ::
  "('k, 'v) map_state \<Rightarrow> 'k \<Rightarrow> (fault + int \<times> ('k, 'v) map_state) option" where
  "htable_remove_map s key =
     (case map_ptr s of
        None \<Rightarrow> Some (Inl AssertFailed)
      | Some mp \<Rightarrow>
     (case map_table mp of
        None \<Rightarrow> Some (Inl AssertFailed)
      | Some bs \<Rightarrow>
     (case bucket_index_map mp bs key of
        Inl f \<Rightarrow> Some (Inl f)
      | Inr hashed_key \<Rightarrow> remove_scan_map mp hashed_key key None (bs ! hashed_key) s)))"

partial_function (option) get_scan_map ::
  "'k hash_map \<Rightarrow> 'k \<Rightarrow> addr option \<Rightarrow> ('k, 'v) map_state \<Rightarrow>
   (fault + 'v option \<times> ('k, 'v) map_state) option" where
  "get_scan_map mp key current s =
     (case current of
        None \<Rightarrow> Some (Inr (None, s))
      | Some c \<Rightarrow>
          (case map_heap s c of
             None \<Rightarrow> Some (Inl DanglingDeref)
           | Some n \<Rightarrow>
               (case map_comp mp of
                  None \<Rightarrow> Some (Inl NullCall)
                | Some comp_fn \<Rightarrow>
                    if comp_fn (node_key n) key = 0 then Some (Inr (node_value n, s))
                    else get_scan_map mp key (node_next n) s)))"

definition htable_get_map ::
  "('k, 'v) map_state \<Rightarrow> 'k \<Rightarrow> (fault + 'v option \<times> ('k, 'v) map_state) option" where
  "htable_get_map s key =
     (case map_ptr s of
        None \<Rightarrow> Some (Inl AssertFailed)
      | Some mp \<Rightarrow>
     (case map_table mp of
        None \<Rightarrow> Some (Inl AssertFailed)
      | Some bs \<Rightarrow>
     (case bucket_index_map mp bs key of
        Inl f \<Rightarrow> Some (Inl f)
      | Inr hashed_key \<Rightarrow> get_scan_map mp key (bs ! hashed_key) s)))"

text \<open>The older \<open>htable_destroy\<close> releases the bucket array and the struct, and no node.\<close>

definition htable_destroy_map :: "('k, 'v) map_state \<Rightarrow> fault + ('k, 'v) map_state" where
  "htable_destroy_map s =
     (case map_ptr s of
        None \<Rightarrow> Inl AssertFailed
      | Some mp \<Rightarrow> Inr (s\<lparr>map_ptr := None\<rparr>))"

section \<open>Chains as lists\<close>

text \<open>
  \<open>segment h p ns q\<close>: following \<open>next\<close> from the pointer \<open>p\<close> in the heap \<open>h\<close> visits
  exactly the nodes \<open>ns\<close> (address and content, in order) and arrives at the pointer
  \<open>q\<close>. A bucket chain is a segment that ends in \<open>NULL\<close>.
\<close>

fun segment ::
  "(addr \<Rightarrow> ('k, 'v) htable_node option) \<Rightarrow> addr option \<Rightarrow>
   (addr \<times> ('k, 'v) htable_node) list \<Rightarrow> addr option \<Rightarrow> bool" where
  "segment h p [] q = (p = q)"
| "segment h p ((a, n) # ns) q = (p = Some a \<and> h a = Some n \<and> segment h (node_next n) ns q)"

definition chain ::
  "(addr \<Rightarrow> ('k, 'v) htable_node option) \<Rightarrow> addr option \<Rightarrow>
   (addr \<times> ('k, 'v) htable_node) list \<Rightarrow> bool" where
  "chain h p ns = segment h p ns None"

text \<open>
  The \<open>keq\<close> callback returns zero for every stored key of \<open>ns\<close> against \<open>key\<close>: the
  scanning loops pass over all of \<open>ns\<close>.
\<close>

definition no_match ::
  "('k, 'v, 'w) htable \<Rightarrow> 'k \<Rightarrow> (addr \<times> ('k, 'v) htable_node) list \<Rightarrow> bool" where
  "no_match t key ns = list_all (\<lambda>(a, n). ht_keq t (node_key n) key = 0) ns"

text \<open>
  A live table: the pointer and its bucket array are not \<open>NULL\<close>, and the array has the
  \<open>size\<close> buckets, \<open>size > 0\<close>, that \<open>htable_create\<close> gave it.
\<close>

definition live ::
  "('k, 'v, 'w) state \<Rightarrow> ('k, 'v, 'w) htable \<Rightarrow> addr option list \<Rightarrow> bool" where
  "live s t bs = (tbl s = Some t \<and> ht_table t = Some bs \<and> 0 < ht_size t \<and> length bs = ht_size t)"

section \<open>Sequences of calls\<close>

datatype ('k, 'v) call = Insert malloc_result 'k "'v option" | Remove 'k | Get 'k

fun discard_result :: "(fault + 'r \<times> 's) option \<Rightarrow> (fault + 's) option" where
  "discard_result None = None"
| "discard_result (Some (Inl f)) = Some (Inl f)"
| "discard_result (Some (Inr (r, s))) = Some (Inr s)"

definition run_call ::
  "('k, 'v) call \<Rightarrow> ('k, 'v, 'w) state \<Rightarrow> (fault + ('k, 'v, 'w) state) option" where
  "run_call c s =
     (case c of
        Insert m key val \<Rightarrow> discard_result (htable_insert m s key val)
      | Remove key \<Rightarrow> discard_result (htable_remove s key)
      | Get key \<Rightarrow> discard_result (htable_get s key))"

fun run_calls ::
  "('k, 'v) call list \<Rightarrow> ('k, 'v, 'w) state \<Rightarrow> (fault + ('k, 'v, 'w) state) option" where
  "run_calls [] s = Some (Inr s)"
| "run_calls (c # cs) s =
     (case run_call c s of
        None \<Rightarrow> None
      | Some (Inl f) \<Rightarrow> Some (Inl f)
      | Some (Inr s') \<Rightarrow> run_calls cs s')"

text \<open>The \<open>count\<close> field of the table struct, when there is one.\<close>

definition count_field :: "('k, 'v, 'w) state \<Rightarrow> nat option" where
  "count_field s = map_option ht_count (tbl s)"

section \<open>Callbacks and tables over integer keys\<close>

text \<open>
  The callbacks of the unit tests: \<open>hash_int\<close> returns \<open>*(int *) key\<close> converted to
  \<open>unsigned long\<close>, \<open>compare_int\<close> returns the difference of the two keys (zero for equal
  keys; the keys used below are small, so the subtraction does not overflow).
\<close>

definition hash_int :: "int \<Rightarrow> nat" where
  "hash_int key = nat (key mod 2 ^ 64)"

definition compare_int :: "int \<Rightarrow> int \<Rightarrow> int" where
  "compare_int key1 key2 = key1 - key2"

text \<open>An equality predicate on integer keys: non-zero for equal keys, zero for distinct ones.\<close>

definition keq_int :: "int \<Rightarrow> int \<Rightarrow> int" where
  "keq_int key1 key2 = (if key1 = key2 then 1 else 0)"

text \<open>
  What \<open>htable_create(length bs, hash_int, eq, NULL)\<close> returns, with \<open>bs\<close> for its
  bucket heads.
\<close>

definition int_table :: "(int \<Rightarrow> int \<Rightarrow> int) \<Rightarrow> addr option list \<Rightarrow> (int, int, unit) htable" where
  "int_table eq bs =
     \<lparr>ht_table = Some bs, ht_size = length bs, ht_count = 0,
      ht_hash = hash_int, ht_keq = eq, ht_cbs = default_callbacks\<rparr>"

definition int_node :: "int \<Rightarrow> int \<Rightarrow> addr option \<Rightarrow> (int, int) htable_node" where
  "int_node k v nx = \<lparr>node_key = k, node_value = Some v, node_next = nx\<rparr>"

definition int_state ::
  "(int \<Rightarrow> int \<Rightarrow> int) \<Rightarrow> addr option list \<Rightarrow> (addr \<Rightarrow> (int, int) htable_node option) \<Rightarrow>
   (int, int, unit) state" where
  "int_state eq bs h = \<lparr>tbl = Some (int_table eq bs), heap = h, world = ()\<rparr>"

text \<open>
  A table of capacity one holding the keys 0 and 1, in the order they were inserted,
  with the values 100 and 200.
\<close>

definition two_chain :: "(addr \<times> (int, int) htable_node) list" where
  "two_chain = [(1, int_node 0 100 (Some 2)), (2, int_node 1 200 None)]"

definition two_heap :: "addr \<Rightarrow> (int, int) htable_node option" where
  "two_heap = [1 \<mapsto> int_node 0 100 (Some 2), 2 \<mapsto> int_node 1 200 None]"

definition two_state :: "(int, int, unit) state" where
  "two_state = int_state keq_int [Some 1] two_heap"

text \<open>A table of capacity one holding the key 0 with the value 100.\<close>

definition one_heap :: "addr \<Rightarrow> (int, int) htable_node option" where
  "one_heap = [1 \<mapsto> int_node 0 100 None]"

text \<open>A freshly created table of the given capacity, in an empty heap.\<close>

definition fresh_state :: "(int \<Rightarrow> int \<Rightarrow> int) \<Rightarrow> nat \<Rightarrow> (int, int, unit) state" where
  "fresh_state eq n = int_state eq (replicate n None) Map.empty"

text \<open>The older variant's map over integer keys, with the unit tests' callbacks.\<close>

definition int_map :: "addr option list \<Rightarrow> int hash_map" where
  "int_map bs = \<lparr>map_table = Some bs, map_size = length bs,
                 map_hash = Some hash_int, map_comp = Some compare_int\<rparr>"

definition int_map_state ::
  "addr option list \<Rightarrow> (addr \<Rightarrow> (int, int) htable_node option) \<Rightarrow> (int, int) map_state" where
  "int_map_state bs h = \<lparr>map_ptr = Some (int_map bs), map_heap = h\<rparr>"

text \<open>
  A table of capacity one from which the key 10 has been removed and that still holds the
  key 20, before and after \<open>htable_insert\<close> of the key 30 into a block whose \<open>next\<close>
  field holds the address 2.
\<close>

definition recycled_before :: "(int, int, unit) state" where
  "recycled_before = int_state keq_int [Some 2] [2 \<mapsto> int_node 20 200 None]"

definition recycled_after :: "(int, int, unit) state" where
  "recycled_after = int_state keq_int [Some 2]
     [2 \<mapsto> int_node 20 200 (Some 1), 1 \<mapsto> int_node 30 300 (Some 2)]"



section \<open>Facts about segments and the scanning loops\<close>

lemma no_match_simps [simp]:
  "no_match t key []"
  "no_match t key ((a, n) # ns) = (ht_keq t (node_key n) key = 0 \<and> no_match t key ns)"
  by (simp_all add: no_match_def)

lemma insert_scan_no_match:
  "segment (heap s) (Some c) (ns @ [(a, n)]) None \<Longrightarrow> no_match t key (ns @ [(a, n)]) \<Longrightarrow>
   insert_scan t key val c s = Some (Inr (Exhausted a))"
proof (induction ns arbitrary: c)
  case Nil
  then show ?case by (subst insert_scan.simps) simp
next
  case (Cons x ns)
  obtain b m where x: "x = (b, m)" by (cases x)
  from Cons.prems have p: "c = b" "heap s b = Some m" "segment (heap s) (node_next m) (ns @ [(a, n)]) None"
    and k: "ht_keq t (node_key m) key = 0" "no_match t key (ns @ [(a, n)])"
    by (simp_all add: x)
  from p(3) obtain d where d: "node_next m = Some d"
    by (cases ns) auto
  have "insert_scan t key val b s = insert_scan t key val d s"
    using p(2) k(1) d by (subst insert_scan.simps) simp
  with Cons.IH [of d] p k d show ?case by simp
qed

lemma insert_scan_first_match:
  "segment (heap s) (Some c) (ns @ [(a, n)]) q \<Longrightarrow> no_match t key ns \<Longrightarrow> ht_keq t (node_key n) key \<noteq> 0 \<Longrightarrow>
   insert_scan t key val c s =
     Some (Inr (Updated (s\<lparr>heap := (heap s)(a \<mapsto> n\<lparr>node_value := vcpy (ht_cbs t) val\<rparr>),
                            world := vfree (ht_cbs t) (node_value n) (world s)\<rparr>)))"
proof (induction ns arbitrary: c)
  case Nil
  then show ?case by (subst insert_scan.simps) simp
next
  case (Cons x ns)
  obtain b m where x: "x = (b, m)" by (cases x)
  from Cons.prems have p: "c = b" "heap s b = Some m" "segment (heap s) (node_next m) (ns @ [(a, n)]) q"
    and k: "ht_keq t (node_key m) key = 0" "no_match t key ns"
    by (simp_all add: x)
  from p(3) obtain d where d: "node_next m = Some d"
    by (cases ns) auto
  have "insert_scan t key val b s = insert_scan t key val d s"
    using p(2) k(1) d by (subst insert_scan.simps) simp
  with Cons.IH [of d] p k d Cons.prems(3) show ?case by simp
qed


lemma live_bucket_index: "live s t bs \<Longrightarrow> bucket_index t bs key = Inr (get_hash t key)"
  by (simp add: live_def bucket_index_def get_hash_def not_le)


section \<open>What the operations leave alone\<close>

lemma discard_result_Inr:
  "discard_result x = Some (Inr s') \<Longrightarrow> \<exists>r. x = Some (Inr (r, s'))"
  by (cases x rule: discard_result.cases) auto

lemma insert_scan_tbl:
  fixes s :: "('k, 'v, 'w) state"
  assumes "insert_scan t key val c s = Some y"
  shows "\<forall>s'. y = Inr (Updated s') \<longrightarrow> tbl s' = tbl s"
proof (rule insert_scan.raw_induct
        [where P = "\<lambda>t key val c s y. \<forall>s'. y = Inr (Updated s') \<longrightarrow> tbl s' = tbl s", OF _ assms])
  fix f key val c y and t :: "('k, 'v, 'w) htable" and s :: "('k, 'v, 'w) state"
  assume IH: "\<And>(t :: ('k, 'v, 'w) htable) key val c s y. f t key val c s = Some y \<Longrightarrow>
      \<forall>s'. y = Inr (Updated s') \<longrightarrow> tbl s' = tbl (s :: ('k, 'v, 'w) state)"
    and step: "(case heap s c of None \<Rightarrow> Some (Inl DanglingDeref)
      | Some n \<Rightarrow>
          if ht_keq t (node_key n) key \<noteq> 0
          then Some (Inr (Updated (s\<lparr>heap := (heap s)(c \<mapsto> n\<lparr>node_value := vcpy (ht_cbs t) val\<rparr>),
                            world := vfree (ht_cbs t) (node_value n) (world s)\<rparr>)))
          else case node_next n of None \<Rightarrow> Some (Inr (Exhausted c))
               | Some nx \<Rightarrow> f t key val nx s) = Some y"
  show "\<forall>s'. y = Inr (Updated s') \<longrightarrow> tbl s' = tbl s"
  proof (cases "heap s c")
    case None
    with step show ?thesis by auto
  next
    case (Some n)
    show ?thesis
    proof (cases "ht_keq t (node_key n) key \<noteq> 0")
      case True
      with step Some show ?thesis by auto
    next
      case False
      show ?thesis
      proof (cases "node_next n")
        case None
        with step Some False show ?thesis by auto
      next
        case (Some nx)
        with step \<open>heap s c = Some n\<close> False have "f t key val nx s = Some y" by simp
        from IH [OF this] show ?thesis .
      qed
    qed
  qed
qed


lemma get_scan_state:
  fixes s :: "('k, 'v, 'w) state"
  assumes "get_scan t key c s = Some y"
  shows "\<forall>r s'. y = Inr (r, s') \<longrightarrow> s' = s"
proof (rule get_scan.raw_induct
        [where P = "\<lambda>t key c s y. \<forall>r s'. y = Inr (r, s') \<longrightarrow> s' = s", OF _ assms])
  fix f key c and t :: "('k, 'v, 'w) htable" and y :: "fault + 'v option \<times> ('k, 'v, 'w) state"
    and s :: "('k, 'v, 'w) state"
  assume IH: "\<And>(t :: ('k, 'v, 'w) htable) key c s y. f t key c s = Some y \<Longrightarrow>
      \<forall>r s'. (y :: fault + 'v option \<times> ('k, 'v, 'w) state) = Inr (r, s') \<longrightarrow> s' = s"
    and step: "(case c of None \<Rightarrow> Some (Inr (None, s))
      | Some c \<Rightarrow>
          case heap s c of None \<Rightarrow> Some (Inl DanglingDeref)
          | Some n \<Rightarrow>
              if ht_keq t (node_key n) key \<noteq> 0
              then Some (Inr (node_value n, s))
              else f t key (node_next n) s) = Some y"
  show "\<forall>r s'. y = Inr (r, s') \<longrightarrow> s' = s"
  proof (cases c)
    case None
    with step show ?thesis by auto
  next
    case (Some a)
    show ?thesis
    proof (cases "heap s a")
      case None
      with step Some show ?thesis by auto
    next
      case n: (Some n)
      show ?thesis
      proof (cases "ht_keq t (node_key n) key \<noteq> 0")
        case True
        with step Some n show ?thesis by auto
      next
        case False
        with step Some n have "f t key (node_next n) s = Some y" by simp
        from IH [OF this] show ?thesis .
      qed
    qed
  qed
qed

lemma unlink_release_count:
  "tbl s = Some t \<Longrightarrow> unlink_node t i prev n s = Inr s1 \<Longrightarrow>
   count_field (release_node t c n s1) = Some (ht_count t)"
  by (auto simp: count_field_def unlink_node_def release_node_def split: option.splits)

lemma remove_scan_count:
  fixes s :: "('k, 'v, 'w) state"
  assumes "remove_scan t i key prev c s = Some y"
  shows "\<forall>r s'. tbl s = Some t \<longrightarrow> y = Inr (r, s') \<longrightarrow> count_field s' = Some (ht_count t)"
proof (rule remove_scan.raw_induct
        [where P = "\<lambda>t i key prev c s y.
           \<forall>r s'. tbl s = Some t \<longrightarrow> y = Inr (r, s') \<longrightarrow> count_field s' = Some (ht_count t)", OF _ assms])
  fix f i key prev c y and t :: "('k, 'v, 'w) htable" and s :: "('k, 'v, 'w) state"
  assume IH: "\<And>(t :: ('k, 'v, 'w) htable) i key prev c s y. f t i key prev c s = Some y \<Longrightarrow>
      \<forall>r s'. tbl s = Some t \<longrightarrow> y = Inr (r, s') \<longrightarrow> count_field (s' :: ('k, 'v, 'w) state) = Some (ht_count t)"
    and step: "(case c of None \<Rightarrow> Some (Inr (- 1, s))
      | Some c \<Rightarrow>
          case heap s c of None \<Rightarrow> Some (Inl DanglingDeref)
          | Some n \<Rightarrow>
              if ht_keq t (node_key n) key \<noteq> 0
              then case unlink_node t i prev n s of
                   Inl f \<Rightarrow> Some (Inl f)
                   | Inr s' \<Rightarrow> Some (Inr (0, release_node t c n s'))
              else f t i key (Some c) (node_next n) s) = Some y"
  show "\<forall>r s'. tbl s = Some t \<longrightarrow> y = Inr (r, s') \<longrightarrow> count_field s' = Some (ht_count t)"
  proof (cases c)
    case None
    with step show ?thesis by (auto simp: count_field_def)
  next
    case (Some a)
    show ?thesis
    proof (cases "heap s a")
      case None
      with step Some show ?thesis by auto
    next
      case n: (Some n)
      show ?thesis
      proof (cases "ht_keq t (node_key n) key \<noteq> 0")
        case True
        with step Some n show ?thesis
          by (auto split: sum.splits simp: unlink_release_count)
      next
        case False
        with step Some n have "f t i key (Some a) (node_next n) s = Some y" by simp
        from IH [OF this] show ?thesis .
      qed
    qed
  qed
qed

lemma htable_insert_count:
  assumes "htable_insert m s key val = Some (Inr (r, s'))"
  shows "count_field s' = count_field s"
proof -
  have scan: "tbl s1 = tbl s" if "insert_scan t key val c s = Some (Inr (Updated s1))" for t c s1
    using insert_scan_tbl [OF that] by simp
  from assms show ?thesis
    by (auto simp: htable_insert_def count_field_def Let_def scan
        split: option.splits sum.splits scan_result.splits prod.splits)
qed

lemma htable_remove_count:
  assumes "htable_remove s key = Some (Inr (r, s'))"
  shows "count_field s' = count_field s"
proof -
  have scan: "count_field s1 = Some (ht_count t)"
    if "remove_scan t i key prev c s = Some (Inr (r1, s1))" "tbl s = Some t" for t i prev c r1 s1
    using remove_scan_count [OF that(1)] that(2) by simp
  from assms show ?thesis
    by (auto simp: htable_remove_def split: option.splits sum.splits dest!: scan)
       (simp add: count_field_def)
qed

lemma htable_get_state:
  assumes "htable_get s key = Some (Inr (r, s'))"
  shows "s' = s"
proof -
  have scan: "s1 = s" if "get_scan t key c s = Some (Inr (r1, s1))" for t c r1 s1
    using get_scan_state [OF that] by simp
  from assms show ?thesis
    by (auto simp: htable_get_def split: option.splits sum.splits dest!: scan)
qed


lemma run_call_count:
  assumes "run_call c s = Some (Inr s')"
  shows "count_field s' = count_field s"
proof (cases c)
  case (Insert m key val)
  with assms obtain r where "htable_insert m s key val = Some (Inr (r, s'))"
    by (auto simp: run_call_def dest: discard_result_Inr)
  then show ?thesis by (rule htable_insert_count)
next
  case (Remove key)
  with assms obtain r where "htable_remove s key = Some (Inr (r, s'))"
    by (auto simp: run_call_def dest: discard_result_Inr)
  then show ?thesis by (rule htable_remove_count)
next
  case (Get key)
  with assms obtain r where "htable_get s key = Some (Inr (r, s'))"
    by (auto simp: run_call_def dest: discard_result_Inr)
  from htable_get_state [OF this] show ?thesis by simp
qed

lemma run_calls_count:
  "run_calls cs s = Some (Inr s') \<Longrightarrow> count_field s' = count_field s"
proof (induction cs arbitrary: s)
  case Nil
  then show ?case by simp
next
  case (Cons c cs)
  then obtain s1 where 1: "run_call c s = Some (Inr s1)" and 2: "run_calls cs s1 = Some (Inr s')"
    by (auto split: option.splits sum.splits)
  from Cons.IH [OF 2] run_call_count [OF 1] show ?case by simp
qed

section \<open>The operations on a well-formed bucket\<close>

lemma htable_insert_absent_no_memory:
  assumes "live s t bs" and "chain (heap s) (bs ! get_hash t key) ns" and "no_match t key ns"
    and "val \<noteq> None"
  shows "htable_insert None s key val = Some (Inr (- 2, s))"
proof -
  from assms(1) have t: "tbl s = Some t" "ht_table t = Some bs" by (simp_all add: live_def)
  note i = live_bucket_index [OF assms(1), of key]
  from assms(4) obtain v where v: "val = Some v" by auto
  show ?thesis
  proof (cases ns rule: rev_cases)
    case Nil
    with assms(2) have "bs ! get_hash t key = None" by (simp add: chain_def)
    with t i v show ?thesis by (simp add: htable_insert_def)
  next
    case (snoc xs x)
    obtain a n where x: "x = (a, n)" by (cases x)
    from assms(2) snoc obtain c where c: "bs ! get_hash t key = Some c"
      by (cases xs) (auto simp: chain_def x)
    have "insert_scan t key val c s = Some (Inr (Exhausted a))"
      using assms(2,3) c snoc x insert_scan_no_match [of s c xs a n t key val] by (simp add: chain_def)
    with t i v c show ?thesis by (simp add: htable_insert_def)
  qed
qed

lemma htable_insert_found:
  assumes "live s t bs" and "segment (heap s) (bs ! get_hash t key) (xs @ [(a, n)]) q"
    and "no_match t key xs" and "ht_keq t (node_key n) key \<noteq> 0" and "val \<noteq> None"
  shows "htable_insert m s key val =
     Some (Inr (0, s\<lparr>heap := (heap s)(a \<mapsto> n\<lparr>node_value := vcpy (ht_cbs t) val\<rparr>),
                     world := vfree (ht_cbs t) (node_value n) (world s)\<rparr>))"
proof -
  from assms(1) have t: "tbl s = Some t" "ht_table t = Some bs" by (simp_all add: live_def)
  note i = live_bucket_index [OF assms(1), of key]
  from assms(5) obtain v where v: "val = Some v" by auto
  from assms(2) obtain c where c: "bs ! get_hash t key = Some c"
    by (cases xs) auto
  from insert_scan_first_match [OF assms(2) [unfolded c] assms(3,4), of val] t i v c
  show ?thesis by (simp add: htable_insert_def)
qed

section \<open>Evaluating the concrete tables\<close>

lemmas ex_defs = two_state_def two_heap_def two_chain_def int_state_def int_table_def int_node_def
  keq_int_def hash_int_def compare_int_def default_callbacks_def htable_default_copy_def
  htable_default_free_def fresh_state_def one_heap_def

lemmas map_defs = int_map_def int_map_state_def htable_insert_map_def htable_get_map_def
  htable_remove_map_def bucket_index_map_def insert_scan_map.simps get_scan_map.simps
  remove_scan_map.simps unlink_node_map_def

lemmas op_defs = run_call_def htable_insert_def htable_get_def htable_remove_def htable_destroy_def
  bucket_index_def get_hash_def insert_scan.simps get_scan.simps remove_scan.simps destroy_chain.simps
  unlink_node_def release_node_def

section \<open>The claims\<close>

text \<open>
  C1. Which result of the comparison callback makes two keys the same key, on the unit
  tests' table of capacity one with \<open>hash_int\<close> and \<open>compare_int\<close>, holding the key 0
  with the value 100. The table with callbacks does not find the key 0, whose comparison
  with the stored key is zero; it finds the key 1, whose comparison is not zero, lets
  an insert of the key 1 overwrite the value of the key 0, and lets a remove of the key
  2 release the entry of the key 0. The older variant, on the same table, finds the key 0
  and not the key 1.
\<close>

theorem comparison_result_inverted:
  "htable_insert (Some (1, None)) (fresh_state compare_int 1) 0 (Some 100)
     = Some (Inr (0, int_state compare_int [Some 1] one_heap))
   \<and> compare_int 0 0 = 0
   \<and> htable_get (int_state compare_int [Some 1] one_heap) 0
       = Some (Inr (None, int_state compare_int [Some 1] one_heap))
   \<and> compare_int 0 1 \<noteq> 0
   \<and> htable_get (int_state compare_int [Some 1] one_heap) 1
       = Some (Inr (Some 100, int_state compare_int [Some 1] one_heap))
   \<and> htable_insert (Some (2, None)) (int_state compare_int [Some 1] one_heap) 1 (Some 200)
       = Some (Inr (0, int_state compare_int [Some 1] [1 \<mapsto> int_node 0 200 None]))
   \<and> compare_int 0 2 \<noteq> 0
   \<and> htable_remove (int_state compare_int [Some 1] one_heap) 2
       = Some (Inr (0, int_state compare_int [None] Map.empty))
   \<and> htable_insert_map (Some (1, None)) (int_map_state [None] Map.empty) 0 (Some 100)
       = Some (Inr (0, int_map_state [Some 1] one_heap))
   \<and> htable_get_map (int_map_state [Some 1] one_heap) 0
       = Some (Inr (Some 100, int_map_state [Some 1] one_heap))
   \<and> htable_get_map (int_map_state [Some 1] one_heap) 1
       = Some (Inr (None, int_map_state [Some 1] one_heap))"
  by (simp add: op_defs map_defs ex_defs fun_eq_iff)

text \<open>
  C2. \<open>htable_destroy\<close> on a table with an empty bucket: the loop body reads
  \<open>current->next\<close> with \<open>current\<close> the \<open>NULL\<close> head of that bucket. Shown on the table of
  capacity two that holds one key, and on a new table of capacity one.
\<close>

theorem destroy_empty_bucket_null_deref:
  "htable_insert (Some (1, None)) (fresh_state keq_int 2) 0 (Some 100)
     = Some (Inr (0, int_state keq_int [Some 1, None] one_heap))
   \<and> htable_destroy (int_state keq_int [Some 1, None] one_heap) = Some (Inl NullDeref)
   \<and> htable_destroy (fresh_state keq_int 1) = Some (Inl NullDeref)"
  by (simp add: op_defs ex_defs numeral_2_eq_2)

text \<open>
  C3. \<open>htable_insert\<close> appending to a non-empty chain leaves the new node's \<open>next\<close> field
  as \<open>malloc\<close> delivered it. After inserting 10 and 20, removing 10 and inserting 30 into
  the block that 10 occupied, the new node points back to the node of 20 and the chain
  is a cycle. The older variant does the same on its table.
\<close>

theorem insert_tail_next_uninitialised:
  "run_calls [Insert (Some (1, None)) 10 (Some 100), Insert (Some (2, None)) 20 (Some 200), Remove 10]
     (fresh_state keq_int 1) = Some (Inr recycled_before)
   \<and> htable_insert (Some (1, Some 2)) recycled_before 30 (Some 300) = Some (Inr (0, recycled_after))
   \<and> heap recycled_after 1 = Some (int_node 30 300 (Some 2))
   \<and> heap recycled_after 2 = Some (int_node 20 200 (Some 1))
   \<and> htable_insert_map (Some (1, Some 2)) (int_map_state [Some 2] [2 \<mapsto> int_node 20 200 None])
         30 (Some 300)
       = Some (Inr (0, int_map_state [Some 2]
           [2 \<mapsto> int_node 20 200 (Some 1), 1 \<mapsto> int_node 30 300 (Some 2)]))"
  by (simp add: op_defs map_defs ex_defs recycled_before_def recycled_after_def fun_eq_iff)


text \<open>
  C5. The unit test \<open>test_htable_insert_int\<close>: on a new table of capacity one with
  \<open>hash_int\<close> and \<open>compare_int\<close>, \<open>htable_insert\<close> of the key 42 with the value 100 returns
  0, and \<open>htable_get\<close> of the key 42 on the resulting table returns \<open>NULL\<close>.
\<close>

theorem get_after_insert_not_found:
  "htable_insert (Some (1, None)) (fresh_state compare_int 1) 42 (Some 100)
     = Some (Inr (0, int_state compare_int [Some 1] [1 \<mapsto> int_node 42 100 None]))
   \<and> compare_int 42 42 = 0
   \<and> htable_get (int_state compare_int [Some 1] [1 \<mapsto> int_node 42 100 None]) 42
       = Some (Inr (None, int_state compare_int [Some 1] [1 \<mapsto> int_node 42 100 None]))"
  by (simp add: op_defs ex_defs fun_eq_iff)

text \<open>
  C6. On the table of capacity one with \<open>hash_int\<close> and \<open>compare_int\<close> that holds the key
  0 only, the key 1 has no equal entry (its comparison with the stored key is not
  zero). \<open>htable_remove\<close> of the key 1 returns 0, empties the bucket and releases the
  node of the key 0.
\<close>

theorem remove_absent_key_releases_entry:
  "htable_insert (Some (1, None)) (fresh_state compare_int 1) 0 (Some 100)
     = Some (Inr (0, int_state compare_int [Some 1] one_heap))
   \<and> compare_int 0 1 \<noteq> 0
   \<and> htable_remove (int_state compare_int [Some 1] one_heap) 1
       = Some (Inr (0, int_state compare_int [None] Map.empty))
   \<and> one_heap 1 = Some (int_node 0 100 None)
   \<and> heap (int_state compare_int [None] Map.empty) 1 = None"
  by (simp add: op_defs ex_defs fun_eq_iff)

text \<open>
  C7. When \<open>htable_insert\<close> needs a new entry (no stored key of the bucket is accepted
  against \<open>key\<close>) and \<open>malloc\<close> fails, it returns -2 and the table, the node heap and
  the caller's memory are exactly what they were.
\<close>

theorem insert_alloc_failure_unchanged:
  assumes "live s t bs" and "chain (heap s) (bs ! get_hash t key) ns" and "no_match t key ns"
    and "val \<noteq> None"
  shows "htable_insert None s key val = Some (Inr (- 2, s))"
  using assms by (rule htable_insert_absent_no_memory)

theorem insert_alloc_failure_unchanged_witness:
  "live two_state (int_table keq_int [Some 1]) [Some 1]
   \<and> chain (heap two_state) ([Some 1] ! get_hash (int_table keq_int [Some 1]) 5) two_chain
   \<and> no_match (int_table keq_int [Some 1]) 5 two_chain
   \<and> htable_insert None two_state 5 (Some 500) = Some (Inr (- 2, two_state))"
proof -
  have 1: "live two_state (int_table keq_int [Some 1]) [Some 1]"
    by (simp add: live_def ex_defs)
  have 2: "chain (heap two_state) ([Some 1] ! get_hash (int_table keq_int [Some 1]) 5) two_chain"
    by (simp add: chain_def get_hash_def ex_defs)
  have 3: "no_match (int_table keq_int [Some 1]) 5 two_chain"
    by (simp add: ex_defs)
  have 4: "Some (500 :: int) \<noteq> None" by simp
  from insert_alloc_failure_unchanged [OF 1 2 3 4] 1 2 3 show ?thesis by simp
qed

text \<open>
  C8. For a capacity \<open>C \<ge> 1\<close> and non-null hash and comparison callbacks, a
  \<open>htable_create\<close> whose two allocations succeed returns a table of size \<open>C\<close> with \<open>C\<close>
  buckets, all \<open>NULL\<close>, on which \<open>htable_get\<close> returns \<open>NULL\<close> for every key.
\<close>

theorem create_empty:
  assumes "1 \<le> C"
  shows "\<exists>t. htable_create True True C (Some hash) (Some keq) cbs = (Some t, [Alloc_table, Alloc_buckets C])
           \<and> ht_table t = Some (replicate C None) \<and> ht_size t = C
           \<and> htable_get \<lparr>tbl = Some t, heap = hp, world = w\<rparr> key
               = Some (Inr (None, \<lparr>tbl = Some t, heap = hp, world = w\<rparr>))"
proof -
  have "hash key mod C < C"
    using assms by simp
  then show ?thesis
    using assms
    by (simp add: htable_create_def htable_get_def bucket_index_def get_hash_def get_scan.simps not_le)
qed

theorem create_empty_witness:
  "(1 :: nat) \<le> 2
   \<and> htable_create True True 2 (Some hash_int) (Some keq_int) None
        = (Some (int_table keq_int [None, None]), [Alloc_table, Alloc_buckets 2])
   \<and> htable_get (fresh_state keq_int 2) 3 = Some (Inr (None, fresh_state keq_int 2))"
proof -
  have 1: "(1 :: nat) \<le> 2" by simp
  have 2: "htable_create True True 2 (Some hash_int) (Some keq_int) None
        = (Some (int_table keq_int [None, None]), [Alloc_table, Alloc_buckets 2])"
    by (simp add: htable_create_def int_table_def numeral_2_eq_2)
  have 3: "fresh_state keq_int 2 = \<lparr>tbl = Some (int_table keq_int [None, None]), heap = Map.empty, world = ()\<rparr>"
    by (simp add: fresh_state_def int_state_def numeral_2_eq_2)
  from create_empty [OF 1, of hash_int keq_int None "Map.empty" "()" 3]
  obtain t where t: "htable_create True True 2 (Some hash_int) (Some keq_int) None
        = (Some (t :: (int, int, unit) htable), [Alloc_table, Alloc_buckets 2])"
    and g: "htable_get \<lparr>tbl = Some t, heap = Map.empty, world = ()\<rparr> 3
        = Some (Inr (None, \<lparr>tbl = Some t, heap = Map.empty, world = ()\<rparr>))"
    by blast
  from t 2 have "t = int_table keq_int [None, None]" by simp
  with g 1 2 3 show ?thesis by simp
qed

text \<open>
  C9. \<open>htable_create\<close> of the table with callbacks returns \<open>NULL\<close>, having allocated
  nothing, whenever the capacity is zero or the hash or the comparison callback is
  \<open>NULL\<close>. The older \<open>htable_create\<close> stops at its assertion, having allocated nothing,
  when the capacity is zero, and checks neither callback: for every non-zero capacity
  (a \<open>size_t\<close>, below \<open>2^64\<close>),
  with both allocations succeeding, it returns a table of that size that stores the two
  callbacks as passed; below \<open>2^61\<close> buckets, where the byte count does not wrap, the
  table has that many buckets, all \<open>NULL\<close>.
\<close>

theorem create_argument_checks:
  "(sz = 0 \<or> hash = None \<or> keq = None \<longrightarrow> htable_create ok1 ok2 sz hash keq cbs = (None, []))
   \<and> (sz = 0 \<longrightarrow> htable_create_map ok1 ok2 sz hash' comp' = Inl AssertFailed)
   \<and> (0 < sz \<and> sz < 2 ^ 64 \<longrightarrow>
        (\<exists>bs evs. htable_create_map True True sz hash' comp'
           = Inr (Some \<lparr>map_table = Some bs, map_size = sz, map_hash = hash', map_comp = comp'\<rparr>, evs)))
   \<and> (0 < sz \<and> sz < 2 ^ 61 \<longrightarrow>
        htable_create_map True True sz hash' comp'
          = Inr (Some \<lparr>map_table = Some (replicate sz None), map_size = sz,
                        map_hash = hash', map_comp = comp'\<rparr>,
                 [Alloc_table, Alloc_bytes (sz * 8)]))"
proof -
  have "sz * 8 mod 2 ^ 64 = sz * 8" if "sz < 2 ^ 61"
    using that by simp
  then show ?thesis
    by (auto simp: htable_create_def htable_create_map_def size_t_wrap_def sizeof_ptr_def
        split: option.splits)
qed

theorem create_argument_checks_witness:
  "htable_create True True 0 (Some hash_int) (Some keq_int) (None :: (int, int, unit) callbacks_arg option)
      = (None, [])
   \<and> htable_create True True 4 None (Some keq_int) (None :: (int, int, unit) callbacks_arg option)
      = (None, [])
   \<and> htable_create True True 4 (Some hash_int) None (None :: (int, int, unit) callbacks_arg option)
      = (None, [])
   \<and> htable_create_map True True 0 (Some hash_int) (Some compare_int) = Inl AssertFailed
   \<and> (0 :: nat) < 1 \<and> (1 :: nat) < 2 ^ 61
   \<and> htable_create_map True True 1 (Some hash_int) (Some compare_int)
      = Inr (Some (int_map [None]), [Alloc_table, Alloc_bytes 8])"
proof -
  note a = create_argument_checks [of 0 "Some hash_int" "Some keq_int" True True
      "None :: (int, int, unit) callbacks_arg option" "Some hash_int" "Some compare_int"]
  note b = create_argument_checks [of 4 "None :: (int \<Rightarrow> nat) option" "Some keq_int" True True
      "None :: (int, int, unit) callbacks_arg option" "Some hash_int" "Some compare_int"]
  note c = create_argument_checks [of 4 "Some hash_int" "None :: (int \<Rightarrow> int \<Rightarrow> int) option" True True
      "None :: (int, int, unit) callbacks_arg option" "Some hash_int" "Some compare_int"]
  note d = create_argument_checks [of 1 "Some hash_int" "Some keq_int" True True
      "None :: (int, int, unit) callbacks_arg option" "Some hash_int" "Some compare_int"]
  have e: "(0 :: nat) < 1 \<and> (1 :: nat) < 2 ^ 61" by simp
  from a b c d e show ?thesis by (simp add: int_map_def)
qed

text \<open>The older \<open>htable_create\<close> with both callbacks missing produces a table.\<close>

theorem create_missing_functions_counterexample:
  "htable_create_map True True 1 (None :: (int \<Rightarrow> nat) option) None
     = Inr (Some \<lparr>map_table = Some [None], map_size = 1, map_hash = None, map_comp = None\<rparr>,
            [Alloc_table, Alloc_bytes 8])"
  by (simp add: htable_create_map_def size_t_wrap_def sizeof_ptr_def)

text \<open>
  C10. The \<open>count\<close> field is zero in the table \<open>htable_create\<close> returns, and after any
  sequence of \<open>htable_insert\<close>, \<open>htable_remove\<close> and \<open>htable_get\<close> calls that return it
  is still zero.
\<close>

theorem count_never_updated:
  assumes "htable_create ok1 ok2 sz hash keq cbs = (Some t, evs)"
    and "run_calls cs \<lparr>tbl = Some t, heap = hp, world = w\<rparr> = Some (Inr s')"
  shows "ht_count t = 0 \<and> count_field s' = Some 0"
proof -
  from assms(1) have "ht_count t = 0"
    by (auto simp: htable_create_def split: if_splits option.splits)
  with run_calls_count [OF assms(2)] show ?thesis by (simp add: count_field_def)
qed

theorem count_never_updated_witness:
  "htable_create True True 1 (Some hash_int) (Some keq_int) None
        = (Some (int_table keq_int [None]), [Alloc_table, Alloc_buckets 1])
   \<and> run_calls [Insert (Some (1, None)) 0 (Some 100), Insert (Some (2, None)) 1 (Some 200), Get 0, Remove 5]
        (fresh_state keq_int 1) = Some (Inr two_state)
   \<and> count_field two_state = Some 0"
proof -
  have 1: "htable_create True True 1 (Some hash_int) (Some keq_int) None
        = (Some (int_table keq_int [None]), [Alloc_table, Alloc_buckets 1])"
    by (simp add: htable_create_def int_table_def)
  have 2: "run_calls [Insert (Some (1, None)) 0 (Some 100), Insert (Some (2, None)) 1 (Some 200), Get 0, Remove 5]
        \<lparr>tbl = Some (int_table keq_int [None]), heap = Map.empty, world = ()\<rparr> = Some (Inr two_state)"
    by (simp add: run_call_def htable_insert_def htable_get_def htable_remove_def bucket_index_def
        get_hash_def insert_scan.simps get_scan.simps remove_scan.simps ex_defs fun_eq_iff)
  from count_never_updated [OF 1 2] 1 2 show ?thesis
    by (simp add: fresh_state_def int_state_def)
qed

end
